theory Spec2Isabelle
  imports Complex_Main "HOL-Library.AList" "HOL-Library.Sublist"
begin

section \<open>Data model of \<open>YT_daily.py\<close>\<close>

text \<open>
  The downloader keeps its durable state in JSON files that it reads into Python
  dictionaries.  A dictionary is modelled as an association list in insertion order
  (\<open>d[k] = v\<close> is \<open>AList.update\<close>, \<open>del d[k]\<close> is \<open>AList.delete\<close>, \<open>d.get(k)\<close> is
  \<open>map_of\<close>); a key that the source reads with \<open>.get(key, default)\<close> or guards with
  \<open>key in d\<close> is an \<open>option\<close> field, \<open>None\<close> meaning that the key is absent.

  \<open>datetime.now()\<close> is an explicit argument \<open>now\<close>; an instant is a number of seconds
  on the local (naive) time line.
\<close>

type_synonym timestamp = int

text \<open>
  One element of \<open>recent_videos\<close>, as \<open>get_all_recent_videos\<close> builds it.  The scanner
  sets every key; the source reads \<open>"id"\<close> and \<open>"url"\<close> with \<open>video_info[...]\<close>, and
  \<open>"title"\<close> and \<open>"duration"\<close> with \<open>.get\<close> and a default.
\<close>

record video_info =
  vid :: string
  title :: "string option"
  url :: string
  duration :: "real option"

text \<open>One element of \<open>downloaded_videos\<close>.\<close>

record history_item =
  h_id :: string
  h_title :: string
  h_url :: string
  downloaded_at :: timestamp

text \<open>\<open>channel_history["channels"][handle]\<close>.\<close>

record channel_entry =
  downloaded_videos :: "history_item list option"
  last_download :: timestamp

text \<open>\<open>self.channel_history\<close>.\<close>

record history =
  channels :: "(string \<times> channel_entry) list option"
  last_updated :: timestamp
  first_run_completed :: "bool option"

text \<open>
  The value stored under \<open>"timestamp"\<close> in a resume entry, by what
  \<open>datetime.fromisoformat\<close> makes of it: a text that it parses to a naive date and time,
  a text with a UTC offset that it parses to an offset-aware one, a text that it rejects
  with \<open>ValueError\<close>, or a value that is no text (\<open>null\<close>, a number), on which it raises
  \<open>TypeError\<close>.
\<close>

datatype stamp = Iso timestamp | IsoOffset timestamp | Malformed string | NotText

datatype datetime = Naive timestamp | Aware timestamp

datatype jval = JStr string | JInt int

text \<open>
  A resume entry: the keys other than \<open>"timestamp"\<close> (the source never reads them), and
  the time stamp.
\<close>

record resume_entry =
  payload :: "(string \<times> jval) list"
  timestamp :: "stamp option"

text \<open>\<open>self.resume_state\<close>.\<close>

record resume =
  videos :: "(string \<times> resume_entry) list option"
  playlists :: "(string \<times> resume_entry) list option"
  last_cleanup :: timestamp

text \<open>
  A state file on disk: absent, present with a content that \<open>json.load\<close> rejects, or
  present with a content.
\<close>

datatype 'a state_file = Absent | Corrupt | Stored 'a

text \<open>The fields of \<open>Config\<close> that the synchronisation engine reads.\<close>

record config =
  filter_shorts :: bool
  ask_initial_videos :: bool
  ask_video_limit_per_channel :: bool
  initial_videos_per_channel :: int
  max_videos_per_channel :: int
  gap_check_limit :: int
  resume_cache_days :: int

text \<open>
  \<open>self\<close> of \<open>YouTubeFeedDownloader\<close>, together with the two state files it owns.
  \<open>writable\<close> tells whether \<open>open(path, 'w')\<close> succeeds: when it does not, the source logs
  the \<open>IOError\<close> and goes on with the file unchanged.  \<open>popen_calls\<close> is not a field of the
  source: it counts the \<open>subprocess.Popen\<close> calls of \<open>_execute_download\<close>.
\<close>

record downloader =
  cfg :: config
  self_channels :: "(string \<times> string) list"
  self_playlists :: "(string \<times> string) list"
  channel_history :: history
  resume_state :: resume
  channel_history_path :: "history state_file"
  resume_state_path :: "resume state_file"
  writable :: bool
  popen_calls :: nat

section \<open>History store\<close>

definition save_channel_history :: "timestamp \<Rightarrow> downloader \<Rightarrow> downloader" where
  "save_channel_history now s =
     (let h = (channel_history s)\<lparr>last_updated := now\<rparr>
      in if writable s
         then s\<lparr>channel_history := h, channel_history_path := Stored h\<rparr>
         else s\<lparr>channel_history := h\<rparr>)"

definition mark_first_run_completed :: "timestamp \<Rightarrow> downloader \<Rightarrow> downloader" where
  "mark_first_run_completed now s =
     save_channel_history now
       (s\<lparr>channel_history := (channel_history s)\<lparr>first_run_completed := Some True\<rparr>\<rparr>)"

definition is_first_run :: "downloader \<Rightarrow> bool" where
  "is_first_run s =
     (\<not> (case first_run_completed (channel_history s) of None \<Rightarrow> False | Some b \<Rightarrow> b))"

text \<open>
  \<open>update_channel_history\<close>.  The statements of the source run in order; the
  \<open>KeyError\<close> of \<open>entry["downloaded_videos"]\<close> is caught by the enclosing \<open>except\<close>, which
  leaves the dictionaries as they are at that point.
\<close>

definition update_channel_history ::
    "timestamp \<Rightarrow> string \<Rightarrow> video_info \<Rightarrow> downloader \<Rightarrow> downloader" where
  "update_channel_history now channel_handle video s =
     (let chs = (case channels (channel_history s) of None \<Rightarrow> [] | Some m \<Rightarrow> m);
          chs1 = (case map_of chs channel_handle of
                    None \<Rightarrow> AList.update channel_handle
                              \<lparr>downloaded_videos = Some [], last_download = now\<rparr> chs
                  | Some e \<Rightarrow> chs);
          s1 = s\<lparr>channel_history := (channel_history s)\<lparr>channels := Some chs1\<rparr>\<rparr>
      in case map_of chs1 channel_handle of
           None \<Rightarrow> s1
         | Some e \<Rightarrow>
            (case downloaded_videos e of
               None \<Rightarrow> s1
             | Some vids \<Rightarrow>
                let video_id = vid video;
                    existing_ids = map h_id vids
                in if video_id \<notin> set existing_ids
                   then
                     let vids1 = vids @ [\<lparr>h_id = video_id,
                                          h_title = (case title video of None \<Rightarrow> ''Unknown'' | Some t \<Rightarrow> t),
                                          h_url = url video,
                                          downloaded_at = now\<rparr>];
                         vids2 = (if length vids1 > 1000
                                  then drop (length vids1 - 1000) vids1 else vids1);
                         e1 = e\<lparr>downloaded_videos := Some vids2, last_download := now\<rparr>;
                         chs2 = AList.update channel_handle e1 chs1
                     in save_channel_history now
                          (s\<lparr>channel_history := (channel_history s)\<lparr>channels := Some chs2\<rparr>\<rparr>)
                   else s1))"

definition is_video_downloaded :: "downloader \<Rightarrow> string \<Rightarrow> string \<Rightarrow> bool" where
  "is_video_downloaded s channel_handle video_id =
     (case map_of (case channels (channel_history s) of None \<Rightarrow> [] | Some m \<Rightarrow> m) channel_handle of
        None \<Rightarrow> False
      | Some e \<Rightarrow>
          list_ex (\<lambda>video. h_id video = video_id)
            (case downloaded_videos e of None \<Rightarrow> [] | Some vs \<Rightarrow> vs))"

text \<open>The ids of a source's \<open>downloaded_videos\<close> list, in list order (empty when the
  source has no entry).\<close>

definition history_ids :: "downloader \<Rightarrow> string \<Rightarrow> string list" where
  "history_ids s channel_handle =
     (case map_of (case channels (channel_history s) of None \<Rightarrow> [] | Some m \<Rightarrow> m) channel_handle of
        None \<Rightarrow> []
      | Some e \<Rightarrow> map h_id (case downloaded_videos e of None \<Rightarrow> [] | Some vs \<Rightarrow> vs))"

text \<open>A sequence of history commits: \<open>(handle, video_info)\<close> pairs, committed in order.\<close>

fun commits :: "timestamp \<Rightarrow> (string \<times> video_info) list \<Rightarrow> downloader \<Rightarrow> downloader" where
  "commits now [] s = s"
| "commits now ((h, v) # rest) s = commits now rest (update_channel_history now h v s)"

section \<open>Resume store\<close>

text \<open>
  \<open>open(path, 'w')\<close> followed by \<open>json.dump\<close>: the file takes the in-memory store, unless
  the write fails, which the source logs and ignores.
\<close>

definition save_resume_state :: "downloader \<Rightarrow> downloader" where
  "save_resume_state s =
     (if writable s then s\<lparr>resume_state_path := Stored (resume_state s)\<rparr> else s)"

text \<open>
  \<open>update_resume_state(item_type, item_id, data)\<close>: \<open>{**data, "timestamp": now}\<close> is
  stored under the id and the store is saved.  When the store lacks the key of the item
  type, the \<open>KeyError\<close> is caught and nothing is saved.
\<close>

definition update_resume_state ::
    "timestamp \<Rightarrow> string \<Rightarrow> string \<Rightarrow> (string \<times> jval) list \<Rightarrow> downloader \<Rightarrow> downloader" where
  "update_resume_state now item_type item_id data_fields s =
     (if item_type = ''video''
      then (case videos (resume_state s) of
              None \<Rightarrow> s
            | Some vs \<Rightarrow>
                save_resume_state
                  (s\<lparr>resume_state := (resume_state s)
                       \<lparr>videos := Some (AList.update item_id
                            \<lparr>payload = data_fields, timestamp = Some (Iso now)\<rparr> vs)\<rparr>\<rparr>))
      else if item_type = ''playlist''
      then (case playlists (resume_state s) of
              None \<Rightarrow> s
            | Some ps \<Rightarrow>
                save_resume_state
                  (s\<lparr>resume_state := (resume_state s)
                       \<lparr>playlists := Some (AList.update item_id
                            \<lparr>payload = data_fields, timestamp = Some (Iso now)\<rparr> ps)\<rparr>\<rparr>))
      else save_resume_state s)"

text \<open>\<open>get_resume_state(item_type, item_id)\<close>; a caught \<open>KeyError\<close> returns \<open>None\<close>.\<close>

definition get_resume_state :: "downloader \<Rightarrow> string \<Rightarrow> string \<Rightarrow> resume_entry option" where
  "get_resume_state s item_type item_id =
     (if item_type = ''video''
      then (case videos (resume_state s) of None \<Rightarrow> None | Some vs \<Rightarrow> map_of vs item_id)
      else if item_type = ''playlist''
      then (case playlists (resume_state s) of None \<Rightarrow> None | Some ps \<Rightarrow> map_of ps item_id)
      else None)"

text \<open>
  \<open>clear_resume_state(item_type, item_id)\<close>: the entry is deleted when present, and the
  store is saved in either case; a caught \<open>KeyError\<close> on a missing key skips the save.
\<close>

definition clear_resume_state :: "string \<Rightarrow> string \<Rightarrow> downloader \<Rightarrow> downloader" where
  "clear_resume_state item_type item_id s =
     (if item_type = ''video''
      then (case videos (resume_state s) of
              None \<Rightarrow> s
            | Some vs \<Rightarrow>
                save_resume_state
                  (if item_id \<in> set (map fst vs)
                   then s\<lparr>resume_state := (resume_state s)\<lparr>videos := Some (AList.delete item_id vs)\<rparr>\<rparr>
                   else s))
      else if item_type = ''playlist''
      then (case playlists (resume_state s) of
              None \<Rightarrow> s
            | Some ps \<Rightarrow>
                save_resume_state
                  (if item_id \<in> set (map fst ps)
                   then s\<lparr>resume_state := (resume_state s)\<lparr>playlists := Some (AList.delete item_id ps)\<rparr>\<rparr>
                   else s))
      else save_resume_state s)"

text \<open>\<open>datetime.fromisoformat\<close> on a stored time stamp.\<close>

datatype error = ValueError | TypeError | KeyError | IndexError | EOFError

fun fromisoformat :: "stamp \<Rightarrow> error + datetime" where
  "fromisoformat (Iso t) = Inr (Naive t)"
| "fromisoformat (IsoOffset t) = Inr (Aware t)"
| "fromisoformat (Malformed txt) = Inl ValueError"
| "fromisoformat NotText = Inl TypeError"

text \<open>
  \<open>entry_time < cutoff_time\<close>, where the cutoff is \<open>datetime.now() - timedelta(...)\<close>, a
  naive date and time: comparing an offset-aware one with it raises \<open>TypeError\<close>.
\<close>

fun before_cutoff :: "datetime \<Rightarrow> timestamp \<Rightarrow> error + bool" where
  "before_cutoff (Naive t) cutoff_time = Inr (t < cutoff_time)"
| "before_cutoff (Aware t) cutoff_time = Inl TypeError"

text \<open>\<open>datetime.fromisoformat("2000-01-01")\<close>, in seconds since 1970-01-01.\<close>

definition y2000 :: timestamp where
  "y2000 = 946684800"

text \<open>
  One loop of \<open>cleanup_old_resume_entries\<close>, over \<open>list(d.keys())\<close> (the keys of a
  dictionary are distinct: \<open>remdups (map fst d)\<close> on an association list).  It returns the
  dictionary, the running \<open>cleaned_count\<close>, and whether an exception left the loop: the
  enclosing \<open>except Exception\<close> then ends the whole sweep, and the deletions made so far
  stay in memory.
\<close>

fun sweep ::
    "timestamp \<Rightarrow> string list \<Rightarrow> (string \<times> resume_entry) list \<Rightarrow> nat \<Rightarrow>
       (string \<times> resume_entry) list \<times> nat \<times> bool" where
  "sweep cutoff_time [] d cleaned_count = (d, cleaned_count, False)"
| "sweep cutoff_time (k # ks) d cleaned_count =
     (case map_of d k of
        None \<Rightarrow> (d, cleaned_count, True)
      | Some entry \<Rightarrow>
          (case fromisoformat (case timestamp entry of None \<Rightarrow> Iso y2000 | Some t \<Rightarrow> t) of
             Inl e \<Rightarrow> (d, cleaned_count, True)
           | Inr entry_time \<Rightarrow>
               (case before_cutoff entry_time cutoff_time of
                  Inl e \<Rightarrow> (d, cleaned_count, True)
                | Inr old \<Rightarrow>
                    if old
                    then sweep cutoff_time ks (AList.delete k d) (cleaned_count + 1)
                    else sweep cutoff_time ks d cleaned_count)))"

definition cleanup_old_resume_entries :: "timestamp \<Rightarrow> downloader \<Rightarrow> downloader" where
  "cleanup_old_resume_entries now s =
     (let cutoff_time = now - resume_cache_days (cfg s) * 86400
      in case videos (resume_state s) of
           None \<Rightarrow> s
         | Some vs \<Rightarrow>
            (case sweep cutoff_time (remdups (map fst vs)) vs 0 of
               (vs1, n1, raised1) \<Rightarrow>
                 let s1 = s\<lparr>resume_state := (resume_state s)\<lparr>videos := Some vs1\<rparr>\<rparr>
                 in if raised1 then s1
                    else
                      (case playlists (resume_state s1) of
                         None \<Rightarrow> s1
                       | Some ps \<Rightarrow>
                          (case sweep cutoff_time (remdups (map fst ps)) ps n1 of
                             (ps1, n2, raised2) \<Rightarrow>
                               let s2 = s1\<lparr>resume_state := (resume_state s1)\<lparr>playlists := Some ps1\<rparr>\<rparr>
                               in if raised2 then s2
                                  else if n2 > 0 then save_resume_state s2 else s2))))"

definition load_resume_state :: "timestamp \<Rightarrow> downloader \<Rightarrow> downloader" where
  "load_resume_state now s =
     (case resume_state_path s of
        Stored r \<Rightarrow> cleanup_old_resume_entries now (s\<lparr>resume_state := r\<rparr>)
      | Absent \<Rightarrow>
          save_resume_state
            (s\<lparr>resume_state := \<lparr>videos = Some [], playlists = Some [], last_cleanup = now\<rparr>\<rparr>)
      | Corrupt \<Rightarrow>
          save_resume_state
            (s\<lparr>resume_state := \<lparr>videos = Some [], playlists = Some [], last_cleanup = now\<rparr>\<rparr>))"

definition load_channel_history :: "timestamp \<Rightarrow> downloader \<Rightarrow> downloader" where
  "load_channel_history now s =
     (case channel_history_path s of
        Stored h \<Rightarrow> s\<lparr>channel_history := h\<rparr>
      | Absent \<Rightarrow>
          save_channel_history now
            (s\<lparr>channel_history :=
                 \<lparr>channels = Some [], last_updated = now, first_run_completed = Some False\<rparr>\<rparr>)
      | Corrupt \<Rightarrow>
          save_channel_history now
            (s\<lparr>channel_history :=
                 \<lparr>channels = Some [], last_updated = now, first_run_completed = Some False\<rparr>\<rparr>))"

text \<open>
  \<open>YouTubeFeedDownloader.__init__\<close>, as far as the two stores go: a process start reads
  the resume store (with its sweep), then the history.
\<close>

definition init :: "timestamp \<Rightarrow> downloader \<Rightarrow> downloader" where
  "init now s = load_channel_history now (load_resume_state now s)"

section \<open>Sync planner\<close>

text \<open>
  What the user types at a prompt, classified as the source reads it: an empty line, a
  text that \<open>int()\<close> accepts, a text on which it raises \<open>ValueError\<close>, or the end of the
  input, on which \<open>console.input\<close> raises \<open>EOFError\<close>.
\<close>

datatype answer = Blank | Number int | Garbage | Eof

text \<open>A fetch task: \<open>(video_info, source_name, task_type)\<close>.\<close>

type_synonym task = "video_info \<times> string \<times> string"

text \<open>
  The outcome of the external process that \<open>_execute_download\<close> runs: its exit code with
  the lines the polling loop read from its standard error, a \<open>TimeoutExpired\<close>, or any other
  exception, with its message.
\<close>

datatype process_result = Exited int "string list" | TimeoutExpired | Raised string

text \<open>
  What one \<open>download_video\<close> job meets outside the program: the result of
  \<open>check_existing_download\<close>, the result of \<open>check_subtitles_available\<close>, and the outcomes of
  its first external process and of the one that retries without subtitles.
\<close>

record job_env =
  existing_download :: "bool \<times> int"
  has_subtitles :: bool
  first_process :: process_result
  retry_process :: process_result

text \<open>
  The world around one synchronisation pass: \<open>scan u n\<close> is what
  \<open>get_all_recent_videos(u, _, max_videos=n)\<close> returns, \<open>limit_answer name\<close> the answer to the
  per-channel prompt (\<open>None\<close> when the standard input is no terminal), \<open>initial_answers\<close>
  the lines typed at the first-run prompt, and \<open>job v\<close> what the download of \<open>v\<close> meets.
\<close>

record env =
  scan :: "string \<Rightarrow> int \<Rightarrow> video_info list"
  limit_answer :: "string \<Rightarrow> answer option"
  initial_answers :: "answer list"
  job :: "video_info \<Rightarrow> job_env"

text \<open>The counters and the task list of the loop over \<open>recent_videos\<close>.\<close>

record plan =
  download_tasks :: "task list"
  new_videos_count :: nat
  already_downloaded_count :: nat
  shorts_skipped :: nat

text \<open>\<open>video_info.get("duration", 0)\<close>.\<close>

definition get_duration :: "video_info \<Rightarrow> real" where
  "get_duration video = (case duration video of None \<Rightarrow> 0 | Some d \<Rightarrow> d)"

definition is_short :: "downloader \<Rightarrow> video_info \<Rightarrow> bool" where
  "is_short s video = (filter_shorts (cfg s) \<and> get_duration video < 60)"

text \<open>The ids of a task list, in order.\<close>

definition task_ids :: "task list \<Rightarrow> string list" where
  "task_ids ts = map (\<lambda>t. vid (fst t)) ts"

text \<open>
  The loop \<open>for video_info in recent_videos\<close> of \<open>process_channel_auto\<close> and of
  \<open>process_playlist_auto\<close>: the shorts filter first, then the history check.
\<close>

fun plan_loop ::
    "downloader \<Rightarrow> string \<Rightarrow> string \<Rightarrow> string \<Rightarrow> video_info list \<Rightarrow> plan \<Rightarrow> plan" where
  "plan_loop s handle source_name task_type [] p = p"
| "plan_loop s handle source_name task_type (video # rest) p =
     (if is_short s video
      then plan_loop s handle source_name task_type rest
             (p\<lparr>shorts_skipped := shorts_skipped p + 1\<rparr>)
      else if is_video_downloaded s handle (vid video)
      then plan_loop s handle source_name task_type rest
             (p\<lparr>already_downloaded_count := already_downloaded_count p + 1\<rparr>)
      else plan_loop s handle source_name task_type rest
             (p\<lparr>download_tasks := download_tasks p @ [(video, source_name, task_type)],
                new_videos_count := new_videos_count p + 1\<rparr>))"

text \<open>What the loop asks of a scanned video before it emits a task for it.\<close>

definition fetchable :: "downloader \<Rightarrow> string \<Rightarrow> video_info \<Rightarrow> bool" where
  "fetchable s handle v = (\<not> is_short s v \<and> \<not> is_video_downloaded s handle (vid v))"

definition empty_plan :: plan where
  "empty_plan = \<lparr>download_tasks = [], new_videos_count = 0,
                  already_downloaded_count = 0, shorts_skipped = 0\<rparr>"

text \<open>The scan depth that \<open>process_channel_auto\<close> settles on before it scans.\<close>

definition check_limit :: "downloader \<Rightarrow> env \<Rightarrow> string \<Rightarrow> string \<Rightarrow> int" where
  "check_limit s w handle display_name =
     (let limit0 = (if max_videos_per_channel (cfg s) > gap_check_limit (cfg s)
                    then max_videos_per_channel (cfg s) else gap_check_limit (cfg s));
          is_new_channel =
            (handle \<notin> set (map fst (case channels (channel_history s) of None \<Rightarrow> [] | Some m \<Rightarrow> m)));
          default_limit = (if is_new_channel then initial_videos_per_channel (cfg s) else limit0)
      in if is_new_channel \<or> ask_video_limit_per_channel (cfg s)
         then (case limit_answer w display_name of
                 None \<Rightarrow> default_limit
               | Some Blank \<Rightarrow> default_limit
               | Some (Number n) \<Rightarrow> n
               | Some Garbage \<Rightarrow> default_limit
               | Some Eof \<Rightarrow> default_limit)
         else limit0)"

definition channel_url :: "string \<Rightarrow> string" where
  "channel_url handle = ''https://www.youtube.com/@'' @ handle @ ''/videos''"

text \<open>
  \<open>process_channel_auto\<close> up to its return value, with the counters it displays.  An
  empty scan returns before the loop.
\<close>

definition channel_auto_plan :: "downloader \<Rightarrow> env \<Rightarrow> string \<Rightarrow> string \<Rightarrow> plan" where
  "channel_auto_plan s w handle display_name =
     (let recent_videos = scan w (channel_url handle) (check_limit s w handle display_name)
      in if recent_videos = [] then empty_plan
         else plan_loop s handle display_name ''channel'' recent_videos empty_plan)"

definition process_channel_auto :: "downloader \<Rightarrow> env \<Rightarrow> string \<Rightarrow> string \<Rightarrow> task list" where
  "process_channel_auto s w handle display_name =
     download_tasks (channel_auto_plan s w handle display_name)"

definition playlist_auto_plan :: "downloader \<Rightarrow> env \<Rightarrow> string \<Rightarrow> string \<Rightarrow> plan" where
  "playlist_auto_plan s w playlist_url playlist_name =
     (let recent_videos = scan w playlist_url (max_videos_per_channel (cfg s))
      in if recent_videos = [] then empty_plan
         else plan_loop s playlist_url playlist_name ''playlist'' recent_videos empty_plan)"

definition process_playlist_auto :: "downloader \<Rightarrow> env \<Rightarrow> string \<Rightarrow> string \<Rightarrow> task list" where
  "process_playlist_auto s w playlist_url playlist_name =
     download_tasks (playlist_auto_plan s w playlist_url playlist_name)"

text \<open>
  \<open>process_channel_first_run\<close>: every scanned video becomes a task (``On first run,
  download all the recent videos we found (up to limit)'').
\<close>

definition process_channel_first_run ::
    "env \<Rightarrow> string \<Rightarrow> string \<Rightarrow> int \<Rightarrow> task list" where
  "process_channel_first_run w handle display_name video_limit =
     (if video_limit = 0 then []
      else map (\<lambda>video. (video, display_name, ''channel''))
             (scan w (channel_url handle) video_limit))"

text \<open>
  \<open>get_initial_video_limit\<close>: the \<open>while True\<close> loop reads answers until one is accepted;
  at the end of the input \<open>console.input\<close> raises \<open>EOFError\<close>, which nothing here catches.
\<close>

fun ask_limit :: "config \<Rightarrow> answer list \<Rightarrow> error + int" where
  "ask_limit c [] = Inl EOFError"
| "ask_limit c (Eof # rest) = Inl EOFError"
| "ask_limit c (Blank # rest) = Inr (initial_videos_per_channel c)"
| "ask_limit c (Number n # rest) =
     (if 0 \<le> n \<and> n \<le> max_videos_per_channel c then Inr n else ask_limit c rest)"
| "ask_limit c (Garbage # rest) = ask_limit c rest"

definition get_initial_video_limit :: "config \<Rightarrow> answer list \<Rightarrow> error + int" where
  "get_initial_video_limit c answers =
     (if \<not> ask_initial_videos c then Inr (initial_videos_per_channel c)
      else ask_limit c answers)"

section \<open>Download jobs\<close>

text \<open>\<open>needle in line\<close> on Python strings: \<open>needle\<close> occurs as a contiguous run.\<close>

fun contains :: "string \<Rightarrow> string \<Rightarrow> bool" where
  "contains needle [] = (needle = [])"
| "contains needle (c # cs) = (prefix needle (c # cs) \<or> contains needle cs)"

text \<open>\<open>str.lower\<close>, on ASCII letters.\<close>

definition lower_char :: "char \<Rightarrow> char" where
  "lower_char c =
     (case map_of (zip ''ABCDEFGHIJKLMNOPQRSTUVWXYZ'' ''abcdefghijklmnopqrstuvwxyz'') c of
        None \<Rightarrow> c | Some l \<Rightarrow> l)"

definition lower :: "string \<Rightarrow> string" where
  "lower txt = map lower_char txt"

text \<open>
  The end of \<open>_execute_download\<close>, from \<open>return_code = process.wait()\<close> on, and its two
  \<open>except\<close> branches.  The result is \<open>(success, video_id, error message)\<close>.
\<close>

definition execute_download :: "video_info \<Rightarrow> process_result \<Rightarrow> bool \<times> string \<times> string" where
  "execute_download video r =
     (case r of
        Exited return_code stderr_lines \<Rightarrow>
          (let error_summary =
                 (if stderr_lines \<noteq> []
                  then concat (drop (length stderr_lines - 5) stderr_lines)
                  else ''Unknown error'')
           in if return_code = 0
              then (if list_ex (\<lambda>line. contains ''ERROR:'' line) stderr_lines
                    then (False, vid video, error_summary)
                    else (True, vid video, []))
              else (False, vid video, error_summary))
      | TimeoutExpired \<Rightarrow> (False, vid video, ''Download timeout'')
      | Raised msg \<Rightarrow> (False, vid video, msg))"

text \<open>A dictionary is true in Python when it has a key.\<close>

definition truthy :: "resume_entry option \<Rightarrow> bool" where
  "truthy r = (case r of None \<Rightarrow> False | Some e \<Rightarrow> payload e \<noteq> [] \<or> timestamp e \<noteq> None)"

text \<open>
  The resume decision of \<open>download_video\<close>: a local file that is not complete, or a
  resume entry together with a progress below 100.
\<close>

definition should_resume :: "job_env \<Rightarrow> resume_entry option \<Rightarrow> bool" where
  "should_resume j resume_entry =
     (let can_resume = fst (existing_download j);
          current_resume_progress = snd (existing_download j)
      in (can_resume \<and> current_resume_progress < 100) \<or>
         (truthy resume_entry \<and> current_resume_progress < 100))"

text \<open>
  The transfer of \<open>download_video\<close>: one external process, and one more without
  subtitles when the first fails with a subtitle error.  The result is \<open>success\<close> and the
  number of processes started.
\<close>

definition transfer :: "job_env \<Rightarrow> video_info \<Rightarrow> bool \<times> nat" where
  "transfer j video =
     (case execute_download video (first_process j) of
        (success, video_id, error_msg) \<Rightarrow>
          if has_subtitles j \<and> \<not> success \<and>
             (contains ''subtitles'' (lower error_msg) \<or> contains ''429'' error_msg)
          then (fst (execute_download video (retry_process j)), 2)
          else (success, 1))"

text \<open>
  \<open>download_video\<close>, for one job run on its own: the resume decision, the resume entry
  written before the transfer, the transfer, and the clearing of the resume entry on
  success (``Keep resume state for failed downloads'').  The result is
  \<open>(success, video_id)\<close> and the new state.
\<close>

definition download_video ::
    "timestamp \<Rightarrow> job_env \<Rightarrow> video_info \<Rightarrow> string \<Rightarrow> downloader \<Rightarrow>
       (bool \<times> string) \<times> downloader" where
  "download_video now j video source_name s =
     (let video_id = vid video;
          resume = should_resume j (get_resume_state s ''video'' video_id);
          s1 = (if resume
                then update_resume_state now ''video'' video_id
                       [(''url'', JStr (url video)),
                        (''title'', JStr (case title video of None \<Rightarrow> ''Unknown'' | Some t \<Rightarrow> t)),
                        (''source'', JStr source_name),
                        (''progress'', JInt (snd (existing_download j))),
                        (''type'', JStr ''video'')] s
                else s);
          s2 = s1\<lparr>popen_calls := popen_calls s1 + snd (transfer j video)\<rparr>
      in if fst (transfer j video)
         then ((True, video_id), clear_resume_state ''video'' video_id s2)
         else ((False, video_id), s2))"

section \<open>Scheduler and orchestrator\<close>

text \<open>
  The commit that \<open>download_videos_parallel\<close> makes for a successful job.  The handle is
  looked up by display name; \<open>[...][0]\<close> on an empty list raises \<open>IndexError\<close>, which the
  \<open>except\<close> around the commit catches, so that nothing is committed.
\<close>

definition commit_success :: "timestamp \<Rightarrow> task \<Rightarrow> downloader \<Rightarrow> downloader" where
  "commit_success now t s =
     (case t of (video, source_name, task_type) \<Rightarrow>
        if task_type = ''channel''
        then (case filter (\<lambda>(k, v). v = source_name) (self_channels s) of
                [] \<Rightarrow> s
              | (handle, v) # others \<Rightarrow> update_channel_history now handle video s)
        else if task_type = ''playlist''
        then (case filter (\<lambda>(k, v). v = source_name) (self_playlists s) of
                [] \<Rightarrow> s
              | (playlist_url, v) # others \<Rightarrow> update_channel_history now playlist_url video s)
        else s)"

text \<open>
  \<open>download_videos_parallel\<close>.  The worker pool runs the jobs concurrently and the
  parent commits each result as it completes; here every job runs to its end in turn
  and is committed at once.  The result is \<open>successful_downloads\<close> and the new state.
\<close>

fun run_jobs :: "timestamp \<Rightarrow> env \<Rightarrow> task list \<Rightarrow> nat \<times> downloader \<Rightarrow> nat \<times> downloader" where
  "run_jobs now w [] acc = acc"
| "run_jobs now w ((video, source_name, task_type) # rest) (successful_downloads, s) =
     (case download_video now (job w video) video source_name s of
        ((success, video_id), s1) \<Rightarrow>
          if success
          then run_jobs now w rest
                 (successful_downloads + 1, commit_success now (video, source_name, task_type) s1)
          else run_jobs now w rest (successful_downloads, s1))"

definition download_videos_parallel ::
    "timestamp \<Rightarrow> env \<Rightarrow> task list \<Rightarrow> downloader \<Rightarrow> nat \<times> downloader" where
  "download_videos_parallel now w tasks s = run_jobs now w tasks (0, s)"

text \<open>What one pass reports: the tasks it planned, its count of successes, the state.\<close>

record pass_result =
  planned :: "task list"
  successful_downloads :: nat
  after :: downloader

text \<open>
  \<open>run_auto_download\<close>: on the first run every source is planned with
  \<open>process_channel_first_run\<close> and the first run is marked completed, before any download
  starts; on later runs channels and playlists are planned against the history.  Then
  the planned tasks are downloaded.  An \<open>EOFError\<close> at the first-run prompt ends the pass.
  The clean-up of old media files, the display, the notifications and the legacy
  \<open>download_history\<close> file do not touch the two stores and are left out.
\<close>

definition run_auto_download :: "timestamp \<Rightarrow> env \<Rightarrow> downloader \<Rightarrow> error + pass_result" where
  "run_auto_download now w s =
     (if is_first_run s
      then (case get_initial_video_limit (cfg s) (initial_answers w) of
              Inl e \<Rightarrow> Inl e
            | Inr videos_per_channel \<Rightarrow>
                let all_download_tasks =
                      concat (map (\<lambda>(handle, name).
                                 process_channel_first_run w handle name videos_per_channel)
                               (self_channels s)) @
                      concat (map (\<lambda>(playlist_url, name).
                                 process_channel_first_run w playlist_url name videos_per_channel)
                               (self_playlists s));
                    s1 = mark_first_run_completed now s;
                    (n, s2) = download_videos_parallel now w all_download_tasks s1
                in Inr \<lparr>planned = all_download_tasks, successful_downloads = n, after = s2\<rparr>)
      else
        let all_download_tasks =
              concat (map (\<lambda>(handle, name). process_channel_auto s w handle name)
                       (self_channels s)) @
              concat (map (\<lambda>(playlist_url, name). process_playlist_auto s w playlist_url name)
                       (self_playlists s));
            (n, s2) = download_videos_parallel now w all_download_tasks s
        in Inr \<lparr>planned = all_download_tasks, successful_downloads = n, after = s2\<rparr>)"

section \<open>Progress stream parser\<close>

text \<open>
  \<open>parse_progress\<close> applies \<open>re.search\<close> with four patterns, then one substring test.  The
  patterns repeat single characters of a class only, so a pattern is a term of the
  following grammar: a literal text, \<open>c+\<close>, \<open>c*\<close> and \<open>c?\<close> for a character class \<open>c\<close>,
  sequence, alternation and a capturing group.  A line is ASCII text, as the retrieval
  tool prints it; the classes are \<open>\d\<close>, \<open>\s\<close>, \<open>\w\<close>, \<open>.\<close> (all but the newline) and single
  characters.
\<close>

datatype cclass = Digit | Space | Word | Dot | Ch char

fun in_class :: "cclass \<Rightarrow> char \<Rightarrow> bool" where
  "in_class Digit c = (c \<in> set ''0123456789'')"
| "in_class Space c = (c \<in> set [CHR '' '', CHR 0x09, CHR 0x0A, CHR 0x0B, CHR 0x0C, CHR 0x0D,
                                   CHR 0x1C, CHR 0x1D, CHR 0x1E, CHR 0x1F])"
| "in_class Word c =
     (c \<in> set ''abcdefghijklmnopqrstuvwxyzABCDEFGHIJKLMNOPQRSTUVWXYZ0123456789_'')"
| "in_class Dot c = (c \<noteq> CHR 0x0A)"
| "in_class (Ch x) c = (c = x)"

datatype regex =
    Lit string
  | Plus cclass
  | Star cclass
  | Opt cclass
  | Seq regex regex
  | Alt regex regex
  | Group regex




fun seqs :: "regex list \<Rightarrow> regex" where
  "seqs [] = Lit []"
| "seqs [r] = r"
| "seqs (r # rs) = Seq r (seqs rs)"

text \<open>\<open>\d+\.?\d*\<close>\<close>

definition number_re :: regex where
  "number_re = seqs [Plus Digit, Opt (Ch CHR ''.''), Star Digit]"

text \<open>\<open>\d+:\d+|\d+\<close>\<close>

definition eta_re :: regex where
  "eta_re = Alt (seqs [Plus Digit, Lit '':'', Plus Digit]) (Plus Digit)"






text \<open>The texts that a pattern matches in full.\<close>

fun lang :: "regex \<Rightarrow> string set" where
  "lang (Lit w) = {w}"
| "lang (Plus k) = {x. x \<noteq> [] \<and> list_all (in_class k) x}"
| "lang (Star k) = {x. list_all (in_class k) x}"
| "lang (Opt k) = {x. x = [] \<or> (\<exists>c. x = [c] \<and> in_class k c)}"
| "lang (Seq r1 r2) = {z. \<exists>x y. z = x @ y \<and> x \<in> lang r1 \<and> y \<in> lang r2}"
| "lang (Alt r1 r2) = lang r1 \<union> lang r2"
| "lang (Group r) = lang r"

text \<open>The group values that a match of a pattern can yield: every group holds a text
  that its own pattern matches in full.\<close>

fun caps_ok :: "regex \<Rightarrow> string list \<Rightarrow> bool" where
  "caps_ok (Lit w) g = (g = [])"
| "caps_ok (Plus k) g = (g = [])"
| "caps_ok (Star k) g = (g = [])"
| "caps_ok (Opt k) g = (g = [])"
| "caps_ok (Seq r1 r2) g = (\<exists>g1 g2. g = g1 @ g2 \<and> caps_ok r1 g1 \<and> caps_ok r2 g2)"
| "caps_ok (Alt r1 r2) g = (caps_ok r1 g \<or> caps_ok r2 g)"
| "caps_ok (Group r) g = (\<exists>x g'. g = x # g' \<and> x \<in> lang r \<and> caps_ok r g')"

section \<open>Duration cache\<close>

text \<open>
  \<open>file_path.stat()\<close>: the file's \<open>st_mtime\<close> and \<open>st_size\<close>, or \<open>None\<close> when it raises
  \<open>FileNotFoundError\<close>.  Time stamps and durations are Python floats, which \<open>get\<close> only
  stores, returns and compares for equality; they are modelled as reals.
\<close>

type_synonym filesystem = "string \<Rightarrow> (real \<times> int) option"

record cache_entry =
  c_mtime :: real
  c_size :: int
  c_duration :: real

text \<open>\<open>DirectoryDurationCache\<close>, with its file.\<close>

record duration_cache =
  cache :: "(string \<times> cache_entry) list"
  dirty :: bool
  cache_file :: "(string \<times> cache_entry) list state_file"

definition load_cache :: "(string \<times> cache_entry) list state_file \<Rightarrow> duration_cache" where
  "load_cache f =
     \<lparr>cache = (case f of Stored c \<Rightarrow> c | Absent \<Rightarrow> [] | Corrupt \<Rightarrow> []),
      dirty = False, cache_file = f\<rparr>"

definition cache_get :: "filesystem \<Rightarrow> duration_cache \<Rightarrow> string \<Rightarrow> real option" where
  "cache_get fs c file_path =
     (case map_of (cache c) file_path of
        None \<Rightarrow> None
      | Some entry \<Rightarrow>
          (case fs file_path of
             None \<Rightarrow> None
           | Some (st_mtime, st_size) \<Rightarrow>
               if c_mtime entry = st_mtime \<and> c_size entry = st_size
               then Some (c_duration entry) else None))"

definition cache_set :: "filesystem \<Rightarrow> string \<Rightarrow> real \<Rightarrow> duration_cache \<Rightarrow> duration_cache" where
  "cache_set fs file_path d c =
     (case fs file_path of
        None \<Rightarrow> c
      | Some (st_mtime, st_size) \<Rightarrow>
          c\<lparr>cache := AList.update file_path
                 \<lparr>c_mtime = st_mtime, c_size = st_size, c_duration = d\<rparr> (cache c),
            dirty := True\<rparr>)"

text \<open>\<open>save\<close>: writes only a dirty cache; a failed write is ignored and leaves it dirty.\<close>

definition cache_save :: "bool \<Rightarrow> duration_cache \<Rightarrow> duration_cache" where
  "cache_save write_ok c =
     (if dirty c \<and> write_ok then c\<lparr>cache_file := Stored (cache c), dirty := False\<rparr> else c)"

section \<open>Operations in sequence\<close>

text \<open>
  What can happen to the stores after a pass: a history commit, the first-run mark, a
  single download job (as \<open>download_single_video\<close> runs it), another pass in some world, a
  new process start that loads both state files.  Each operation comes with the time at
  which it runs.  A pass that ends with an exception leaves the stores as they were.
\<close>

datatype operation =
    Commit string video_info
  | MarkFirstRunCompleted
  | Download job_env video_info string
  | Pass env
  | Restart

fun apply_op :: "timestamp \<times> operation \<Rightarrow> downloader \<Rightarrow> downloader" where
  "apply_op (now, Commit handle v) s = update_channel_history now handle v s"
| "apply_op (now, MarkFirstRunCompleted) s = mark_first_run_completed now s"
| "apply_op (now, Download j v source_name) s = snd (download_video now j v source_name s)"
| "apply_op (now, Pass w) s =
     (case run_auto_download now w s of Inl e \<Rightarrow> s | Inr r \<Rightarrow> after r)"
| "apply_op (now, Restart) s = init now s"

definition run_ops :: "(timestamp \<times> operation) list \<Rightarrow> downloader \<Rightarrow> downloader" where
  "run_ops ops s = fold apply_op ops s"

text \<open>The first-run flag as the history file holds it.\<close>

definition persisted_first_run_completed :: "downloader \<Rightarrow> bool" where
  "persisted_first_run_completed s =
     (case channel_history_path s of
        Stored h \<Rightarrow> first_run_completed h = Some True
      | Absent \<Rightarrow> False
      | Corrupt \<Rightarrow> False)"



text \<open>Every entry of the history has its \<open>"downloaded_videos"\<close> list.\<close>

definition has_list :: "string \<times> channel_entry \<Rightarrow> bool" where
  "has_list p = (downloaded_videos (snd p) \<noteq> None)"

definition well_formed_history :: "downloader \<Rightarrow> bool" where
  "well_formed_history s =
     list_all has_list (case channels (channel_history s) of None \<Rightarrow> [] | Some m \<Rightarrow> m)"



text \<open>Two states have the same configuration, the same sources and the same first-run
  flag.\<close>

definition same_settings :: "downloader \<Rightarrow> downloader \<Rightarrow> bool" where
  "same_settings s s' =
     (cfg s' = cfg s \<and> self_channels s' = self_channels s \<and>
      self_playlists s' = self_playlists s \<and>
      first_run_completed (channel_history s') = first_run_completed (channel_history s))"


text \<open>The first run is marked completed in memory and in the history file, and the
  state files can be written.\<close>

definition first_run_done :: "downloader \<Rightarrow> bool" where
  "first_run_done s =
     (first_run_completed (channel_history s) = Some True \<and>
      persisted_first_run_completed s \<and> writable s)"

section \<open>Start states and simple worlds\<close>

text \<open>The defaults of the \<open>Config\<close> dataclass.\<close>

definition default_config :: config where
  "default_config =
     \<lparr>filter_shorts = True, ask_initial_videos = True, ask_video_limit_per_channel = False,
      initial_videos_per_channel = 5, max_videos_per_channel = 100, gap_check_limit = 10,
      resume_cache_days = 7\<rparr>"

text \<open>
  The object as the first assignments of \<open>__init__\<close> leave it, before anything is loaded:
  both stores are empty dictionaries.  \<open>hfile\<close> and \<open>rfile\<close> are the two state files found on
  disk.
\<close>

definition new_downloader ::
    "config \<Rightarrow> (string \<times> string) list \<Rightarrow> (string \<times> string) list \<Rightarrow>
       history state_file \<Rightarrow> resume state_file \<Rightarrow> downloader" where
  "new_downloader c chans pls hfile rfile =
     \<lparr>cfg = c, self_channels = chans, self_playlists = pls,
      channel_history = \<lparr>channels = None, last_updated = 0, first_run_completed = None\<rparr>,
      resume_state = \<lparr>videos = None, playlists = None, last_cleanup = 0\<rparr>,
      channel_history_path = hfile, resume_state_path = rfile,
      writable = True, popen_calls = 0\<rparr>"

text \<open>
  A world in which every scan returns \<open>vs\<close>, the first-run prompt is answered with an
  empty line, the standard input is no terminal otherwise, no local file exists, no
  subtitles are offered and every external process ends as \<open>r\<close>.
\<close>

definition simple_world :: "video_info list \<Rightarrow> process_result \<Rightarrow> env" where
  "simple_world vs r =
     \<lparr>scan = (\<lambda>u n. vs), limit_answer = (\<lambda>name. None), initial_answers = [Blank],
      job = (\<lambda>v. \<lparr>existing_download = (False, 0), has_subtitles = False,
                   first_process = r, retry_process = r\<rparr>)\<rparr>"

text \<open>A scanned video with the given id and duration, with the url that the scanner
  builds from the id.\<close>

definition video :: "string \<Rightarrow> real \<Rightarrow> video_info" where
  "video i d =
     \<lparr>vid = i, title = Some i, url = ''https://www.youtube.com/watch?v='' @ i,
      duration = Some d\<rparr>"

section \<open>Unfolding the model on concrete inputs\<close>

lemmas eval_defs =
  init_def new_downloader_def default_config_def simple_world_def video_def
  load_resume_state_def load_channel_history_def save_resume_state_def save_channel_history_def
  cleanup_old_resume_entries_def mark_first_run_completed_def is_first_run_def
  update_channel_history_def is_video_downloaded_def history_ids_def
  process_channel_auto_def channel_auto_plan_def process_playlist_auto_def playlist_auto_plan_def
  process_channel_first_run_def check_limit_def channel_url_def empty_plan_def is_short_def get_duration_def task_ids_def
  Let_def

lemmas job_defs =
  download_video_def should_resume_def transfer_def execute_download_def truthy_def
  get_resume_state_def update_resume_state_def clear_resume_state_def
  run_auto_download_def download_videos_parallel_def commit_success_def
  get_initial_video_limit_def

lemmas cache_defs = cache_get_def cache_set_def cache_save_def load_cache_def

lemmas op_defs = run_ops_def persisted_first_run_completed_def first_run_done_def

section \<open>Properties of the history store\<close>

lemma channels_save [simp]:
  "channels (channel_history (save_channel_history now s)) = channels (channel_history s)"
  by (simp add: save_channel_history_def Let_def)

lemma history_ids_cong:
  "channels (channel_history s) = channels (channel_history s') \<Longrightarrow> history_ids s h = history_ids s' h"
  by (simp add: history_ids_def)

lemma history_ids_channels:
  "channels (channel_history s) = Some chs \<Longrightarrow>
   history_ids s h = (case map_of chs h of None \<Rightarrow> []
      | Some e \<Rightarrow> map h_id (case downloaded_videos e of None \<Rightarrow> [] | Some vs \<Rightarrow> vs))"
  by (simp add: history_ids_def)

lemma history_ids_update_other:
  "h \<noteq> h' \<Longrightarrow> history_ids (update_channel_history now h' v s) h = history_ids s h"
  unfolding update_channel_history_def Let_def history_ids_def
  by (simp add: update_conv' split: option.split)

lemma history_ids_update_same:
  "history_ids (update_channel_history now h v s) h =
     (let ids = history_ids s h
      in if vid v \<in> set ids then ids
         else if (case map_of (case channels (channel_history s) of None \<Rightarrow> [] | Some m \<Rightarrow> m) h of
                    None \<Rightarrow> False | Some e \<Rightarrow> downloaded_videos e = None) then ids
         else let ids1 = ids @ [vid v]
              in if length ids1 > 1000 then drop (length ids1 - 1000) ids1 else ids1)"
  unfolding update_channel_history_def Let_def history_ids_def
  by (simp add: update_conv' drop_map split: option.split)

lemma distinct_append_capped:
  assumes "distinct xs" and "x \<notin> set xs"
  shows "distinct (let ys = xs @ [x] in if length ys > 1000 then drop (length ys - 1000) ys else ys)"
proof -
  from assms have d: "distinct (xs @ [x])" by simp
  then have "distinct (drop n (xs @ [x]))" for n by (rule distinct_drop)
  with d show ?thesis by (simp add: Let_def del: drop_append length_append)
qed

lemma distinct_update_channel_history:
  assumes d: "distinct (history_ids s h)"
  shows "distinct (history_ids (update_channel_history now h' v s) h)"
proof (cases "h = h'")
  case False
  with d show ?thesis by (simp add: history_ids_update_other)
next
  case True
  have "distinct (history_ids (update_channel_history now h v s) h)"
    using d distinct_append_capped [of "history_ids s h" "vid v"]
    by (simp add: history_ids_update_same Let_def del: drop_append length_append)
  with True show ?thesis by simp
qed

text \<open>
  C1.  For every source, after any sequence of history commits
  (\<open>update_channel_history\<close> calls) that starts from a history whose list for that source
  has pairwise distinct ids (an empty history among them), the ids of the source's
  \<open>downloaded_videos\<close> list are pairwise distinct: the number of distinct ids equals the
  length of the list.
\<close>

theorem no_duplicate_history:
  assumes "distinct (history_ids s h)"
  shows "distinct (history_ids (commits now ops s) h) \<and>
         card (set (history_ids (commits now ops s) h)) = length (history_ids (commits now ops s) h)"
proof -
  from assms have "distinct (history_ids (commits now ops s) h)"
  proof (induction ops arbitrary: s)
    case Nil
    then show ?case by simp
  next
    case (Cons op ops)
    obtain h' v where op: "op = (h', v)" by (cases op)
    from Cons.prems have "distinct (history_ids (update_channel_history now h' v s) h)"
      by (rule distinct_update_channel_history)
    then show ?case unfolding op by (simp add: Cons.IH)
  qed
  then show ?thesis by (simp add: distinct_card)
qed


theorem no_duplicate_history_witness:
  "distinct (history_ids
      (init 0 (new_downloader default_config [(''chan'', ''Chan'')] [] Absent Absent)) ''chan'') \<and>
   history_ids
     (commits 1 [(''chan'', video ''v1'' 120), (''chan'', video ''v1'' 120), (''chan'', video ''v2'' 200)]
        (init 0 (new_downloader default_config [(''chan'', ''Chan'')] [] Absent Absent))) ''chan''
     = [''v1'', ''v2'']"
  using no_duplicate_history [of
      "init 0 (new_downloader default_config [(''chan'', ''Chan'')] [] Absent Absent)" "''chan''"]
  by (simp add: eval_defs)

section \<open>Properties of the sync planner\<close>

lemma plan_loop_tasks:
  "download_tasks (plan_loop s h n t vs p) =
     download_tasks p @ map (\<lambda>v. (v, n, t)) (filter (fetchable s h) vs)"
  by (induction vs arbitrary: p) (simp_all add: fetchable_def)

lemma plan_loop_shorts:
  "shorts_skipped (plan_loop s h n t vs p) = shorts_skipped p + length (filter (is_short s) vs)"
  by (induction vs arbitrary: p) simp_all

lemma plan_loop_already:
  "already_downloaded_count (plan_loop s h n t vs p) =
     already_downloaded_count p +
     length (filter (\<lambda>v. \<not> is_short s v \<and> is_video_downloaded s h (vid v)) vs)"
  by (induction vs arbitrary: p) simp_all

lemma plan_loop_new:
  "new_videos_count (plan_loop s h n t vs p) =
     new_videos_count p + length (filter (fetchable s h) vs)"
  by (induction vs arbitrary: p) (simp_all add: fetchable_def)

lemma process_channel_auto_eq:
  "process_channel_auto s w h n =
     map (\<lambda>v. (v, n, ''channel''))
       (filter (fetchable s h) (scan w (channel_url h) (check_limit s w h n)))"
  by (simp add: process_channel_auto_def channel_auto_plan_def Let_def plan_loop_tasks empty_plan_def)

lemma process_playlist_auto_eq:
  "process_playlist_auto s w u n =
     map (\<lambda>v. (v, n, ''playlist''))
       (filter (fetchable s u) (scan w u (max_videos_per_channel (cfg s))))"
  by (simp add: process_playlist_auto_def playlist_auto_plan_def Let_def plan_loop_tasks empty_plan_def)

lemma distinct_task_ids:
  "distinct (map vid vs) \<Longrightarrow> distinct (task_ids (map (\<lambda>v. (v, n, t)) (filter P vs)))"
  by (simp add: task_ids_def comp_def distinct_map_filter)

text \<open>
  C3, as the claim states it, fails: nothing in the planning loop looks at the tasks
  already emitted, so a scan that lists the id \<open>v1\<close> twice yields two tasks for \<open>v1\<close>.
\<close>

theorem planner_at_most_once_counterexample:
  "task_ids
     (process_channel_auto
        (mark_first_run_completed 1 (init 0 (new_downloader default_config [(''chan'', ''Chan'')] [] Absent Absent)))
        (simple_world [video ''v1'' 120, video ''v1'' 120] (Exited 0 []))
        ''chan'' ''Chan'') = [''v1'', ''v1'']"
  by (simp add: eval_defs)

text \<open>
  C3, amended.  For a scan result whose ids are pairwise distinct, the planner emits at
  most one fetch task for any id of a source within a pass: the ids of the tasks of
  \<open>process_channel_auto\<close>, and of \<open>process_playlist_auto\<close>, are pairwise distinct.
\<close>

theorem planner_at_most_once:
  assumes "distinct (map vid (scan w (channel_url handle) (check_limit s w handle name)))"
    and "distinct (map vid (scan w playlist_url (max_videos_per_channel (cfg s))))"
  shows "distinct (task_ids (process_channel_auto s w handle name)) \<and>
         distinct (task_ids (process_playlist_auto s w playlist_url playlist_name))"
  using assms by (simp only: process_channel_auto_eq process_playlist_auto_eq distinct_task_ids)

theorem planner_at_most_once_witness:
  "distinct (map vid (scan (simple_world [video ''v1'' 120, video ''v2'' 200] (Exited 0 []))
       (channel_url ''chan'')
       (check_limit (init 0 (new_downloader default_config [(''chan'', ''Chan'')] [] Absent Absent))
          (simple_world [video ''v1'' 120, video ''v2'' 200] (Exited 0 [])) ''chan'' ''Chan''))) \<and>
   task_ids (process_channel_auto
       (init 0 (new_downloader default_config [(''chan'', ''Chan'')] [] Absent Absent))
       (simple_world [video ''v1'' 120, video ''v2'' 200] (Exited 0 [])) ''chan'' ''Chan'')
     = [''v1'', ''v2''] \<and>
   distinct (task_ids (process_playlist_auto
       (init 0 (new_downloader default_config [(''chan'', ''Chan'')] [] Absent Absent))
       (simple_world [video ''v1'' 120, video ''v2'' 200] (Exited 0 [])) ''list'' ''List''))"
  using planner_at_most_once [of
      "simple_world [video ''v1'' 120, video ''v2'' 200] (Exited 0 [])" "''chan''"
      "init 0 (new_downloader default_config [(''chan'', ''Chan'')] [] Absent Absent)" "''Chan''"
      "''list''" "''List''"]
  by (simp add: eval_defs)



section \<open>Properties of a pass in steady state\<close>

lemma channel_history_save_resume [simp]:
  "channel_history (save_resume_state s) = channel_history s"
  by (simp add: save_resume_state_def)

lemma channel_history_update_resume [simp]:
  "channel_history (update_resume_state now ty i d s) = channel_history s"
  by (simp add: update_resume_state_def split: option.split)

lemma channel_history_clear_resume [simp]:
  "channel_history (clear_resume_state ty i s) = channel_history s"
  by (simp add: clear_resume_state_def split: option.split)

lemma download_video_channel_history [simp]:
  "channel_history (snd (download_video now j v n s)) = channel_history s"
  by (simp add: download_video_def Let_def)

lemma set_history_ids_update:
  "set (history_ids (update_channel_history now h' v s) h) \<subseteq> insert (vid v) (set (history_ids s h))"
proof (cases "h = h'")
  case False
  then show ?thesis by (simp add: history_ids_update_other subset_insertI)
next
  case True
  have "set (drop k (history_ids s h @ [vid v])) \<subseteq> insert (vid v) (set (history_ids s h))" for k
    using set_drop_subset [of k "history_ids s h @ [vid v]"] by auto
  then show ?thesis
    unfolding True [symmetric] history_ids_update_same Let_def
    by (auto simp del: drop_append length_append split: if_split)
qed

lemma set_history_ids_commit:
  "set (history_ids (commit_success now t s) h) \<subseteq> insert (vid (fst t)) (set (history_ids s h))"
proof -
  obtain v n ty where t: "t = (v, n, ty)" by (cases t)
  show ?thesis
    unfolding t commit_success_def using set_history_ids_update [of now _ v s h]
    by (auto split: list.split prod.split)
qed

lemma run_jobs_history:
  "set (history_ids (snd (run_jobs now w ts (k, s))) h) \<subseteq> set (history_ids s h) \<union> set (task_ids ts)"
proof (induction ts arbitrary: k s)
  case Nil
  then show ?case by simp
next
  case (Cons t ts)
  obtain v n ty where t: "t = (v, n, ty)" by (cases t)
  obtain ok i s1 where d: "download_video now (job w v) v n s = ((ok, i), s1)"
    by (metis surj_pair)
  have s1: "history_ids s1 h = history_ids s h"
    using download_video_channel_history [of now "job w v" v n s] d
    by (simp add: history_ids_def)
  show ?case
  proof (cases ok)
    case True
    have "set (history_ids (snd (run_jobs now w ts (k + 1, commit_success now (v, n, ty) s1))) h)
            \<subseteq> set (history_ids (commit_success now (v, n, ty) s1) h) \<union> set (task_ids ts)"
      by (rule Cons.IH)
    also have "\<dots> \<subseteq> insert (vid v) (set (history_ids s1 h)) \<union> set (task_ids ts)"
      using set_history_ids_commit [of now "(v, n, ty)" s1 h] by auto
    finally show ?thesis using True d s1 by (simp add: t task_ids_def)
  next
    case False
    have "set (history_ids (snd (run_jobs now w ts (k, s1))) h)
            \<subseteq> set (history_ids s1 h) \<union> set (task_ids ts)"
      by (rule Cons.IH)
    then show ?thesis using False d s1 by (auto simp: t task_ids_def)
  qed
qed

lemma tasks_not_short_channel:
  "t \<in> set (process_channel_auto s w h n) \<Longrightarrow> \<not> is_short s (fst t)"
  by (auto simp: process_channel_auto_eq fetchable_def)

lemma tasks_not_short_playlist:
  "t \<in> set (process_playlist_auto s w u n) \<Longrightarrow> \<not> is_short s (fst t)"
  by (auto simp: process_playlist_auto_eq fetchable_def)

lemma steady_pass:
  assumes "\<not> is_first_run s"
  shows "\<exists>r. run_auto_download now w s = Inr r \<and>
           planned r =
             concat (map (\<lambda>(handle, name). process_channel_auto s w handle name) (self_channels s)) @
             concat (map (\<lambda>(u, name). process_playlist_auto s w u name) (self_playlists s)) \<and>
           after r = snd (run_jobs now w (planned r) (0, s))"
  using assms by (simp add: run_auto_download_def Let_def download_videos_parallel_def split_beta)

lemma steady_pass_not_short:
  assumes "\<not> is_first_run s" and "run_auto_download now w s = Inr r" and "t \<in> set (planned r)"
  shows "\<not> is_short s (fst t)"
proof -
  from steady_pass [OF assms(1), of now w] assms(2)
  have "planned r =
          concat (map (\<lambda>(handle, name). process_channel_auto s w handle name) (self_channels s)) @
          concat (map (\<lambda>(u, name). process_playlist_auto s w u name) (self_playlists s))"
    by auto
  with assms(3) show ?thesis
    by (auto dest: tasks_not_short_channel tasks_not_short_playlist)
qed

lemma steady_pass_history:
  assumes "\<not> is_first_run s" and "run_auto_download now w s = Inr r"
  shows "set (history_ids (after r) h) \<subseteq> set (history_ids s h) \<union> set (task_ids (planned r))"
proof -
  from steady_pass [OF assms(1), of now w] assms(2)
  have "after r = snd (run_jobs now w (planned r) (0, s))" by auto
  then show ?thesis by (simp add: run_jobs_history)
qed

lemma channel_auto_plan_counts:
  "shorts_skipped (channel_auto_plan s w h n) =
     length (filter (is_short s) (scan w (channel_url h) (check_limit s w h n))) \<and>
   already_downloaded_count (channel_auto_plan s w h n) =
     length (filter (\<lambda>v. \<not> is_short s v \<and> is_video_downloaded s h (vid v))
       (scan w (channel_url h) (check_limit s w h n)))"
  by (simp add: channel_auto_plan_def Let_def plan_loop_shorts plan_loop_already empty_plan_def)

lemma playlist_auto_plan_counts:
  "shorts_skipped (playlist_auto_plan s w u n) =
     length (filter (is_short s) (scan w u (max_videos_per_channel (cfg s)))) \<and>
   already_downloaded_count (playlist_auto_plan s w u n) =
     length (filter (\<lambda>v. \<not> is_short s v \<and> is_video_downloaded s u (vid v))
       (scan w u (max_videos_per_channel (cfg s))))"
  by (simp add: playlist_auto_plan_def Let_def plan_loop_shorts plan_loop_already empty_plan_def)

text \<open>
  C4, as the claim states it, fails on the first-run path: \<open>process_channel_first_run\<close>
  turns every scanned video into a task.  With the shorts filter on, a first pass over a
  scan that holds one video of 45 seconds plans that video and, its download succeeding,
  commits its id to the history.
\<close>

theorem short_filtering_counterexample:
  "filter_shorts (cfg (init 0 (new_downloader default_config [(''chan'', ''Chan'')] [] Absent Absent))) \<and>
   is_first_run (init 0 (new_downloader default_config [(''chan'', ''Chan'')] [] Absent Absent)) \<and>
   (case run_auto_download 1 (simple_world [video ''s1'' 45] (Exited 0 []))
           (init 0 (new_downloader default_config [(''chan'', ''Chan'')] [] Absent Absent)) of
      Inl e \<Rightarrow> False
    | Inr r \<Rightarrow> task_ids (planned r) = [''s1''] \<and> history_ids (after r) ''chan'' = [''s1''])"
  by (simp add: eval_defs job_defs)

text \<open>
  C4, amended.  With the shorts filter on, in a pass in steady state: no planned task is a
  video shorter than 60 seconds; the ids that the pass adds to a source's history are ids
  of planned tasks; the skipped-shorts tally of a source counts exactly the scanned videos
  shorter than 60 seconds; and the already-downloaded count counts only videos of 60
  seconds or more whose id is in the history, so that a short is not counted there even
  when its id is in the history.  (The first-run path takes every scanned video.)
\<close>

theorem steady_state_short_filtering:
  assumes "filter_shorts (cfg s)" and "\<not> is_first_run s"
  shows "\<exists>r. run_auto_download now w s = Inr r \<and>
           (\<forall>t \<in> set (planned r). 60 \<le> get_duration (fst t)) \<and>
           set (history_ids (after r) h) \<subseteq> set (history_ids s h) \<union> set (task_ids (planned r)) \<and>
           shorts_skipped (channel_auto_plan s w h n) =
             length (filter (\<lambda>v. get_duration v < 60) (scan w (channel_url h) (check_limit s w h n))) \<and>
           already_downloaded_count (channel_auto_plan s w h n) =
             length (filter (\<lambda>v. 60 \<le> get_duration v \<and> is_video_downloaded s h (vid v))
               (scan w (channel_url h) (check_limit s w h n))) \<and>
           shorts_skipped (playlist_auto_plan s w h n) =
             length (filter (\<lambda>v. get_duration v < 60) (scan w h (max_videos_per_channel (cfg s)))) \<and>
           already_downloaded_count (playlist_auto_plan s w h n) =
             length (filter (\<lambda>v. 60 \<le> get_duration v \<and> is_video_downloaded s h (vid v))
               (scan w h (max_videos_per_channel (cfg s))))"
proof -
  from steady_pass [OF assms(2), of now w]
  obtain r where r: "run_auto_download now w s = Inr r" by blast
  have short: "is_short s v = (get_duration v < 60)" for v
    using assms(1) by (simp add: is_short_def)
  then have short_fun: "is_short s = (\<lambda>v. get_duration v < 60)"
    by (simp add: fun_eq_iff)
  have a: "\<forall>t \<in> set (planned r). 60 \<le> get_duration (fst t)"
    using steady_pass_not_short [OF assms(2) r] by (simp add: short not_less)
  have b: "set (history_ids (after r) h) \<subseteq> set (history_ids s h) \<union> set (task_ids (planned r))"
    by (rule steady_pass_history [OF assms(2) r])
  have c: "shorts_skipped (channel_auto_plan s w h n) =
             length (filter (\<lambda>v. get_duration v < 60) (scan w (channel_url h) (check_limit s w h n)))"
    and d: "already_downloaded_count (channel_auto_plan s w h n) =
             length (filter (\<lambda>v. 60 \<le> get_duration v \<and> is_video_downloaded s h (vid v))
               (scan w (channel_url h) (check_limit s w h n)))"
    using channel_auto_plan_counts [of s w h n] by (simp_all add: short short_fun not_less)
  have e: "shorts_skipped (playlist_auto_plan s w h n) =
             length (filter (\<lambda>v. get_duration v < 60) (scan w h (max_videos_per_channel (cfg s))))"
    and f: "already_downloaded_count (playlist_auto_plan s w h n) =
             length (filter (\<lambda>v. 60 \<le> get_duration v \<and> is_video_downloaded s h (vid v))
               (scan w h (max_videos_per_channel (cfg s))))"
    using playlist_auto_plan_counts [of s w h n] by (simp_all add: short short_fun not_less)
  from r a b c d e f show ?thesis by blast
qed

theorem steady_state_short_filtering_witness:
  "filter_shorts (cfg
      (commits 1 [(''A'', video ''v1'' 200), (''A'', video ''v2'' 30)]
         (mark_first_run_completed 1
            (init 0 (new_downloader default_config [(''A'', ''Source A'')] [] Absent Absent))))) \<and>
   \<not> is_first_run
      (commits 1 [(''A'', video ''v1'' 200), (''A'', video ''v2'' 30)]
         (mark_first_run_completed 1
            (init 0 (new_downloader default_config [(''A'', ''Source A'')] [] Absent Absent)))) \<and>
   task_ids (process_channel_auto
      (commits 1 [(''A'', video ''v1'' 200), (''A'', video ''v2'' 30)]
         (mark_first_run_completed 1
            (init 0 (new_downloader default_config [(''A'', ''Source A'')] [] Absent Absent))))
      (simple_world [video ''v3'' 120, video ''v2'' 30, video ''v1'' 200] (Exited 0 []))
      ''A'' ''Source A'') = [''v3''] \<and>
   shorts_skipped (channel_auto_plan
      (commits 1 [(''A'', video ''v1'' 200), (''A'', video ''v2'' 30)]
         (mark_first_run_completed 1
            (init 0 (new_downloader default_config [(''A'', ''Source A'')] [] Absent Absent))))
      (simple_world [video ''v3'' 120, video ''v2'' 30, video ''v1'' 200] (Exited 0 []))
      ''A'' ''Source A'') = 1 \<and>
   already_downloaded_count (channel_auto_plan
      (commits 1 [(''A'', video ''v1'' 200), (''A'', video ''v2'' 30)]
         (mark_first_run_completed 1
            (init 0 (new_downloader default_config [(''A'', ''Source A'')] [] Absent Absent))))
      (simple_world [video ''v3'' 120, video ''v2'' 30, video ''v1'' 200] (Exited 0 []))
      ''A'' ''Source A'') = 1"
  using steady_state_short_filtering [of
      "commits 1 [(''A'', video ''v1'' 200), (''A'', video ''v2'' 30)]
         (mark_first_run_completed 1
            (init 0 (new_downloader default_config [(''A'', ''Source A'')] [] Absent Absent)))"
      2 "simple_world [video ''v3'' 120, video ''v2'' 30, video ''v1'' 200] (Exited 0 [])"
      "''A''" "''Source A''"]
  by (simp add: eval_defs)

section \<open>Two passes in a row\<close>









lemma settings_save_history [simp]:
  "cfg (save_channel_history now s) = cfg s"
  "self_channels (save_channel_history now s) = self_channels s"
  "self_playlists (save_channel_history now s) = self_playlists s"
  "first_run_completed (channel_history (save_channel_history now s)) =
     first_run_completed (channel_history s)"
  by (simp_all add: save_channel_history_def Let_def)


lemma settings_save_resume [simp]:
  "cfg (save_resume_state s) = cfg s"
  "self_channels (save_resume_state s) = self_channels s"
  "self_playlists (save_resume_state s) = self_playlists s"
  by (simp_all add: save_resume_state_def)

lemma settings_update_resume [simp]:
  "cfg (update_resume_state now ty i d s) = cfg s"
  "self_channels (update_resume_state now ty i d s) = self_channels s"
  "self_playlists (update_resume_state now ty i d s) = self_playlists s"
  by (simp_all add: update_resume_state_def split: option.split)

lemma settings_clear_resume [simp]:
  "cfg (clear_resume_state ty i s) = cfg s"
  "self_channels (clear_resume_state ty i s) = self_channels s"
  "self_playlists (clear_resume_state ty i s) = self_playlists s"
  by (simp_all add: clear_resume_state_def split: option.split)



lemma same_settings_refl [simp]: "same_settings s s"
  by (simp add: same_settings_def)



lemma history_ids_download [simp]:
  "history_ids (snd (download_video now j v n s)) h = history_ids s h"
  by (simp add: history_ids_def)

lemma wf_download [simp]:
  "well_formed_history (snd (download_video now j v n s)) = well_formed_history s"
  by (simp add: well_formed_history_def)



















section \<open>Properties of a download job\<close>

lemma execute_download_success:
  "fst (execute_download v r) =
     (\<exists>lines. r = Exited 0 lines \<and> \<not> list_ex (contains ''ERROR:'') lines)"
  by (cases r) (auto simp: execute_download_def Let_def)

lemma execute_download_marked:
  "list_ex (contains ''ERROR:'') lines \<Longrightarrow>
   execute_download v (Exited 0 lines) = (False, vid v, concat (drop (length lines - 5) lines))"
  by (cases lines) (simp_all add: execute_download_def Let_def)

text \<open>
  C6.  \<open>_execute_download\<close> reports success if and only if the external process exits
  with code 0 and no captured line of its standard error contains the marker \<open>ERROR:\<close>.
  In particular, an exit code of 0 together with a marked line is a failure, whose error
  summary is the concatenation of the last five captured lines.
\<close>

theorem download_success_iff:
  "fst (execute_download v r) =
     (\<exists>lines. r = Exited 0 lines \<and> \<not> list_ex (contains ''ERROR:'') lines) \<and>
   (list_ex (contains ''ERROR:'') lines \<longrightarrow>
      execute_download v (Exited 0 lines) =
        (False, vid v, concat (drop (length lines - 5) lines)))"
  using execute_download_success [of v r] execute_download_marked [of lines v] by blast

theorem download_success_iff_witness:
  "list_ex (contains ''ERROR:'')
      [''WARNING: a\<newline>'', ''b\<newline>'', ''c\<newline>'', ''d\<newline>'', ''e\<newline>'', ''ERROR: unable to download\<newline>''] \<and>
   execute_download (video ''v1'' 120)
      (Exited 0 [''WARNING: a\<newline>'', ''b\<newline>'', ''c\<newline>'', ''d\<newline>'', ''e\<newline>'', ''ERROR: unable to download\<newline>''])
     = (False, ''v1'', ''b\<newline>c\<newline>d\<newline>e\<newline>ERROR: unable to download\<newline>'') \<and>
   \<not> fst (execute_download (video ''v1'' 120) (Exited 1 [])) \<and>
   fst (execute_download (video ''v1'' 120) (Exited 0 [''WARNING: a\<newline>'']))"
  using download_success_iff [of "video ''v1'' 120" "Exited 1 []"
      "[''WARNING: a\<newline>'', ''b\<newline>'', ''c\<newline>'', ''d\<newline>'', ''e\<newline>'', ''ERROR: unable to download\<newline>'']"]
  by (simp add: execute_download_def video_def Let_def)

lemma get_after_save [simp]:
  "get_resume_state (save_resume_state s) ty i = get_resume_state s ty i"
  by (simp add: get_resume_state_def save_resume_state_def)

lemma get_after_popen [simp]:
  "get_resume_state (s\<lparr>popen_calls := k\<rparr>) ty i = get_resume_state s ty i"
  by (simp add: get_resume_state_def)










lemma writable_after_update [simp]:
  "writable (update_resume_state now ty i d s) = writable s"
  by (simp add: update_resume_state_def save_resume_state_def split: option.split)




section \<open>Properties of the duration cache\<close>

text \<open>
  C8.  \<open>get(path)\<close> returns the stored duration if and only if the path has an entry and
  the file's current \<open>st_mtime\<close> and \<open>st_size\<close> both equal the stored pair; it returns
  \<open>None\<close> in every other case: no entry for the path, the file no longer there, or a stat
  pair that differs from the stored one.
\<close>

theorem cache_get_iff:
  "(cache_get fs c p = Some d) =
     (\<exists>e. map_of (cache c) p = Some e \<and> fs p = Some (c_mtime e, c_size e) \<and> d = c_duration e) \<and>
   (cache_get fs c p = None) =
     (map_of (cache c) p = None \<or> fs p = None \<or>
      (\<exists>e st. map_of (cache c) p = Some e \<and> fs p = Some st \<and> st \<noteq> (c_mtime e, c_size e)))"
  by (auto simp: cache_get_def split: option.splits prod.splits)

theorem cache_get_iff_witness:
  "cache_get (\<lambda>p. Some (10, 500))
      (load_cache (Stored [(''a.mp4'', \<lparr>c_mtime = 10, c_size = 500, c_duration = 93\<rparr>)])) ''a.mp4''
     = Some 93 \<and>
   cache_get (\<lambda>p. Some (11, 777))
      (load_cache (Stored [(''a.mp4'', \<lparr>c_mtime = 10, c_size = 500, c_duration = 93\<rparr>)])) ''a.mp4''
     = None \<and>
   cache_get (\<lambda>p. None)
      (load_cache (Stored [(''a.mp4'', \<lparr>c_mtime = 10, c_size = 500, c_duration = 93\<rparr>)])) ''a.mp4''
     = None \<and>
   cache_get (\<lambda>p. Some (10, 500))
      (load_cache (Stored [(''a.mp4'', \<lparr>c_mtime = 10, c_size = 500, c_duration = 93\<rparr>)])) ''b.mp4''
     = None \<and>
   cache_get (\<lambda>p. Some (11, 777))
      (load_cache (cache_file (cache_save True (cache_set (\<lambda>p. Some (11, 777)) ''a.mp4'' 120
         (load_cache (Stored [(''a.mp4'', \<lparr>c_mtime = 10, c_size = 500, c_duration = 93\<rparr>)])))))) ''a.mp4''
     = Some 120"
  using cache_get_iff [of "\<lambda>p. Some (10, 500)"
      "load_cache (Stored [(''a.mp4'', \<lparr>c_mtime = 10, c_size = 500, c_duration = 93\<rparr>)])" "''a.mp4''" 93]
  by (simp add: cache_defs)

section \<open>Properties of the retention sweep\<close>






lemma resume_state_load_channel_history [simp]:
  "resume_state (load_channel_history now s) = resume_state s"
  by (simp add: load_channel_history_def save_channel_history_def Let_def split: state_file.split)





section \<open>Properties of the first-run flag\<close>

lemma first_run_done_frame:
  assumes "first_run_done s"
    and "channel_history s' = channel_history s"
    and "channel_history_path s' = channel_history_path s"
    and "writable s' = writable s"
  shows "first_run_done s'"
  using assms by (simp add: first_run_done_def persisted_first_run_completed_def)

lemma first_run_done_save:
  assumes "first_run_completed (channel_history s) = Some True" and "writable s"
  shows "first_run_done (save_channel_history now s)"
  using assms
  by (simp add: first_run_done_def persisted_first_run_completed_def save_channel_history_def Let_def)

lemma first_run_done_mark:
  "writable s \<Longrightarrow> first_run_done (mark_first_run_completed now s)"
  by (simp add: mark_first_run_completed_def first_run_done_save)

lemma first_run_done_update:
  assumes "first_run_done s"
  shows "first_run_done (update_channel_history now h v s)"
proof -
  have keep: "first_run_done (s\<lparr>channel_history := (channel_history s)\<lparr>channels := c\<rparr>\<rparr>)" for c
    using assms by (simp add: first_run_done_def persisted_first_run_completed_def)
  have saved: "first_run_done (save_channel_history now
                 (s\<lparr>channel_history := (channel_history s)\<lparr>channels := c\<rparr>\<rparr>))" for c
    using assms by (intro first_run_done_save) (simp_all add: first_run_done_def)
  show ?thesis
    unfolding update_channel_history_def Let_def
    by (simp add: keep saved split: option.split)
qed

lemma path_save_resume [simp]:
  "channel_history_path (save_resume_state s) = channel_history_path s"
  "writable (save_resume_state s) = writable s"
  by (simp_all add: save_resume_state_def)

lemma path_update_resume [simp]:
  "channel_history_path (update_resume_state now ty i d s) = channel_history_path s"
  by (simp add: update_resume_state_def split: option.split)

lemma path_clear_resume [simp]:
  "channel_history_path (clear_resume_state ty i s) = channel_history_path s"
  "writable (clear_resume_state ty i s) = writable s"
  by (simp_all add: clear_resume_state_def split: option.split)

lemma path_download_video [simp]:
  "channel_history_path (snd (download_video now j v n s)) = channel_history_path s"
  "writable (snd (download_video now j v n s)) = writable s"
  by (simp_all add: download_video_def Let_def)

lemma first_run_done_download:
  "first_run_done s \<Longrightarrow> first_run_done (snd (download_video now j v n s))"
  by (erule first_run_done_frame) simp_all

lemma first_run_done_commit:
  "first_run_done s \<Longrightarrow> first_run_done (commit_success now t s)"
  by (cases t) (simp add: commit_success_def first_run_done_update split: list.split prod.split)

lemma first_run_done_jobs:
  "first_run_done s \<Longrightarrow> first_run_done (snd (run_jobs now w ts (k, s)))"
proof (induction ts arbitrary: k s)
  case Nil
  then show ?case by simp
next
  case (Cons t ts)
  obtain v n ty where t: "t = (v, n, ty)" by (cases t)
  obtain ok i s1 where d: "download_video now (job w v) v n s = ((ok, i), s1)"
    by (metis surj_pair)
  from first_run_done_download [OF Cons.prems, of now "job w v" v n] d
  have s1: "first_run_done s1" by simp
  then have "first_run_done (commit_success now (v, n, ty) s1)"
    by (rule first_run_done_commit)
  with s1 show ?case
    by (simp add: t d Cons.IH)
qed

lemma first_run_done_not_first: "first_run_done s \<Longrightarrow> \<not> is_first_run s"
  by (simp add: first_run_done_def is_first_run_def)

lemma first_run_done_pass:
  assumes "first_run_done s"
  shows "\<exists>r. run_auto_download now w s = Inr r \<and> first_run_done (after r)"
  using first_run_done_not_first [OF assms] first_run_done_jobs [OF assms]
  by (simp add: run_auto_download_def Let_def download_videos_parallel_def split_beta)

lemma history_cleanup [simp]:
  "channel_history (cleanup_old_resume_entries now s) = channel_history s"
  "channel_history_path (cleanup_old_resume_entries now s) = channel_history_path s"
  "writable (cleanup_old_resume_entries now s) = writable s"
  by (simp_all add: cleanup_old_resume_entries_def Let_def split: option.split prod.split)

lemma history_load_resume [simp]:
  "channel_history_path (load_resume_state now s) = channel_history_path s"
  "writable (load_resume_state now s) = writable s"
  by (simp_all add: load_resume_state_def split: state_file.split)

lemma first_run_done_init:
  assumes "first_run_done s"
  shows "first_run_done (init now s)"
proof -
  from assms obtain h where h: "channel_history_path s = Stored h"
    and f: "first_run_completed h = Some True" and w: "writable s"
    by (auto simp: first_run_done_def persisted_first_run_completed_def split: state_file.splits)
  then show ?thesis
    by (simp add: init_def load_channel_history_def first_run_done_def
          persisted_first_run_completed_def)
qed

lemma first_run_done_op:
  "first_run_done s \<Longrightarrow> first_run_done (apply_op op s)"
proof (cases op)
  case (Pair now x)
  assume s: "first_run_done s"
  show ?thesis
  proof (cases x)
    case (Commit h v)
    with s Pair show ?thesis by (simp add: first_run_done_update)
  next
    case MarkFirstRunCompleted
    from s have "writable s" by (simp add: first_run_done_def)
    with Pair MarkFirstRunCompleted show ?thesis by (simp add: first_run_done_mark)
  next
    case (Download j v n)
    with s Pair show ?thesis by (simp add: first_run_done_download)
  next
    case (Pass w)
    from first_run_done_pass [OF s, of now w] Pair Pass show ?thesis by auto
  next
    case Restart
    with s Pair show ?thesis by (simp add: first_run_done_init)
  qed
qed

lemma first_run_done_ops:
  "first_run_done s \<Longrightarrow> first_run_done (run_ops ops s)"
  unfolding run_ops_def
  by (induction ops arbitrary: s) (simp_all add: first_run_done_op)

lemma first_pass_result:
  assumes "is_first_run s"
  shows "run_auto_download now w s =
     (case get_initial_video_limit (cfg s) (initial_answers w) of
        Inl e \<Rightarrow> Inl e
      | Inr k \<Rightarrow>
          Inr \<lparr>planned =
                 concat (map (\<lambda>(handle, name). process_channel_first_run w handle name k)
                          (self_channels s)) @
                 concat (map (\<lambda>(u, name). process_channel_first_run w u name k)
                          (self_playlists s)),
               successful_downloads =
                 fst (run_jobs now w
                   (concat (map (\<lambda>(handle, name). process_channel_first_run w handle name k)
                             (self_channels s)) @
                    concat (map (\<lambda>(u, name). process_channel_first_run w u name k)
                             (self_playlists s)))
                   (0, mark_first_run_completed now s)),
               after =
                 snd (run_jobs now w
                   (concat (map (\<lambda>(handle, name). process_channel_first_run w handle name k)
                             (self_channels s)) @
                    concat (map (\<lambda>(u, name). process_channel_first_run w u name k)
                             (self_playlists s)))
                   (0, mark_first_run_completed now s))\<rparr>)"
  using assms
  by (simp add: run_auto_download_def Let_def download_videos_parallel_def split_beta
        split: sum.split)

text \<open>
  C5.  From a state in which the first run is pending (the state files being writable),
  the first pass completes exactly when the first-run prompt is answered, and when it
  completes the flag has flipped, in memory and in the history file, whatever the
  downloads did: the world \<open>w\<close>, which holds the outcome of every download, is arbitrary.
  (\<open>mark_first_run_completed\<close> runs once the tasks are planned, before the downloads
  start.)  No later sequence of commits, marks, download jobs, passes and process
  restarts sets the flag back.
\<close>

theorem first_run_flag_flips_once:
  assumes "is_first_run s" and "writable s"
  shows "(\<exists>r. run_auto_download now w s = Inr r) =
           (\<exists>k. get_initial_video_limit (cfg s) (initial_answers w) = Inr k) \<and>
         (\<forall>r. run_auto_download now w s = Inr r \<longrightarrow>
            \<not> is_first_run (after r) \<and> persisted_first_run_completed (after r) \<and>
            (\<forall>ops. \<not> is_first_run (run_ops ops (after r)) \<and>
                   persisted_first_run_completed (run_ops ops (after r))))"
proof (intro conjI allI impI)
  show "(\<exists>r. run_auto_download now w s = Inr r) =
          (\<exists>k. get_initial_video_limit (cfg s) (initial_answers w) = Inr k)"
    unfolding first_pass_result [OF assms(1)]
    by (cases "get_initial_video_limit (cfg s) (initial_answers w)") simp_all
next
  fix r
  assume r: "run_auto_download now w s = Inr r"
  have d: "first_run_done (after r)"
  proof (cases "get_initial_video_limit (cfg s) (initial_answers w)")
    case (Inl e)
    with r show ?thesis by (simp add: first_pass_result [OF assms(1)])
  next
    case (Inr k)
    with r first_run_done_jobs [OF first_run_done_mark [OF assms(2), of now]]
    show ?thesis by (auto simp: first_pass_result [OF assms(1)])
  qed
  then show "\<not> is_first_run (after r)" by (rule first_run_done_not_first)
  from d show "persisted_first_run_completed (after r)" by (simp add: first_run_done_def)
  fix ops
  from d have o: "first_run_done (run_ops ops (after r))" by (rule first_run_done_ops)
  then show "\<not> is_first_run (run_ops ops (after r))" by (rule first_run_done_not_first)
  from o show "persisted_first_run_completed (run_ops ops (after r))"
    by (simp add: first_run_done_def)
qed

theorem first_run_flag_flips_once_witness:
  "is_first_run (init 0 (new_downloader default_config [(''chan'', ''Chan'')] [] Absent Absent)) \<and>
   writable (init 0 (new_downloader default_config [(''chan'', ''Chan'')] [] Absent Absent)) \<and>
   (case run_auto_download 1
           (simple_world [video ''v1'' 100, video ''v2'' 200, video ''v3'' 300] (Exited 1 []))
           (init 0 (new_downloader default_config [(''chan'', ''Chan'')] [] Absent Absent)) of
      Inl e \<Rightarrow> False
    | Inr r \<Rightarrow>
        task_ids (planned r) = [''v1'', ''v2'', ''v3''] \<and> successful_downloads r = 0 \<and>
        history_ids (after r) ''chan'' = [] \<and>
        \<not> is_first_run (after r) \<and> persisted_first_run_completed (after r) \<and>
        \<not> is_first_run
            (run_ops [(2, Restart),
                      (3, Pass (simple_world [video ''v1'' 100] (Exited 0 []))),
                      (4, Restart)] (after r)))"
  using first_run_flag_flips_once [of
      "init 0 (new_downloader default_config [(''chan'', ''Chan'')] [] Absent Absent)" 1
      "simple_world [video ''v1'' 100, video ''v2'' 200, video ''v3'' 300] (Exited 1 [])"]
  by (simp add: eval_defs job_defs op_defs)

section \<open>Properties of the progress stream parser\<close>








lemma caps_number [simp]: "caps_ok number_re g = (g = [])"
  by (simp add: number_re_def)

lemma caps_eta [simp]: "caps_ok eta_re g = (g = [])"
  by (auto simp: eta_re_def)




















end
